theory Spec2Isabelle
  imports Complex_Main
begin

section \<open>Keystroke feature extractor: \<^verbatim>\<open>analysis/feature_extractor.py\<close>\<close>

subsection \<open>Decoded JSON values and Python exceptions\<close>

text \<open>
  A stored run record is whatever \<^verbatim>\<open>json.load\<close> returns: a dynamically typed value.
  In the model of the row, a number is a real: \<open>JNum r\<close> stands for a finite float or an
  int, and \<^verbatim>\<open>-\<close>, \<^verbatim>\<open>*\<close>, \<^verbatim>\<open>/\<close> and the functions of \<^verbatim>\<open>statistics\<close> are exact. What this
  reading leaves out: rounding, the OverflowError of an int too large for a float, and
  the values \<^verbatim>\<open>inf\<close> and \<^verbatim>\<open>nan\<close>, which \<^verbatim>\<open>json.load\<close> accepts and on which \<^verbatim>\<open>statistics\<close> may
  raise. So a row of the model is the row of the script up to rounding where the script
  returns one; that the script returns a row is claimed below only where no arithmetic on
  timestamps takes place. The lag-1 autocorrelation, whose guard compares a float with 0,
  is modelled a second time with numpy's float64 arithmetic written out.
\<close>

datatype json =
    JNull
  | JBool bool
  | JNum real
  | JStr string
  | JArr "json list"
  | JObj "(string \<times> json) list"

datatype error =
    AttributeError
  | TypeError
  | ValueError
  | JSONDecodeError
  | DriverError

definition bind_e :: "error + 'a \<Rightarrow> ('a \<Rightarrow> error + 'b) \<Rightarrow> error + 'b" where
  "bind_e m f = (case m of Inl e \<Rightarrow> Inl e | Inr x \<Rightarrow> f x)"

fun map_e :: "('a \<Rightarrow> error + 'b) \<Rightarrow> 'a list \<Rightarrow> error + 'b list" where
  "map_e f [] = Inr []"
| "map_e f (x # xs) =
     (case f x of
        Inl e \<Rightarrow> Inl e
      | Inr y \<Rightarrow> (case map_e f xs of Inl e \<Rightarrow> Inl e | Inr ys \<Rightarrow> Inr (y # ys)))"

text \<open>\<^verbatim>\<open>d.get(k, default)\<close>: only a dict has the method.\<close>

definition get :: "json \<Rightarrow> string \<Rightarrow> json \<Rightarrow> error + json" where
  "get d k dflt =
     (case d of
        JObj kvs \<Rightarrow> Inr (case map_of kvs k of Some v \<Rightarrow> v | None \<Rightarrow> dflt)
      | _ \<Rightarrow> Inl AttributeError)"

text \<open>\<^verbatim>\<open>for k in ks\<close>: a list yields its items, a str its characters, a dict its keys;
  None, a bool and a number are not iterable.\<close>

definition iter :: "json \<Rightarrow> error + json list" where
  "iter v =
     (case v of
        JArr xs \<Rightarrow> Inr xs
      | JStr s \<Rightarrow> Inr (map (\<lambda>c. JStr [c]) s)
      | JObj kvs \<Rightarrow> Inr (map (\<lambda>kv. JStr (fst kv)) kvs)
      | _ \<Rightarrow> Inl TypeError)"

text \<open>Operands of \<^verbatim>\<open>-\<close>: numbers, and bools as 0 and 1; anything else raises TypeError.\<close>

definition num_of :: "json \<Rightarrow> error + real" where
  "num_of v =
     (case v of
        JNum r \<Rightarrow> Inr r
      | JBool b \<Rightarrow> Inr (if b then 1 else 0)
      | _ \<Rightarrow> Inl TypeError)"

definition py_sub :: "json \<Rightarrow> json \<Rightarrow> error + real" where
  "py_sub a b = bind_e (num_of a) (\<lambda>x. bind_e (num_of b) (\<lambda>y. Inr (x - y)))"

subsection \<open>The helper functions\<close>

definition inter_key_intervals :: "json list \<Rightarrow> error + real list" where
  "inter_key_intervals ts_list =
     (if length ts_list < 2 then Inr []
      else map_e (\<lambda>i. bind_e (py_sub (ts_list ! (i + 1)) (ts_list ! i)) (\<lambda>d. Inr (d * 1000)))
             [0 ..< length ts_list - 1])"

text \<open>\<^verbatim>\<open>statistics.mean\<close>, \<^verbatim>\<open>statistics.pstdev\<close> and \<^verbatim>\<open>statistics.median\<close> on a
  non-empty list; the callers guard the empty one.\<close>

definition mean :: "real list \<Rightarrow> real" where
  "mean xs = sum_list xs / real (length xs)"

definition pstdev :: "real list \<Rightarrow> real" where
  "pstdev xs = sqrt (sum_list (map (\<lambda>x. (x - mean xs)\<^sup>2) xs) / real (length xs))"

definition median :: "real list \<Rightarrow> real" where
  "median xs =
     (let data = sort xs; n = length data
      in if n mod 2 = 1 then data ! (n div 2)
         else (data ! (n div 2 - 1) + data ! (n div 2)) / 2)"

definition safe_mean :: "real list \<Rightarrow> real" where
  "safe_mean xs = (if xs \<noteq> [] then mean xs else 0)"

definition safe_std :: "real list \<Rightarrow> real" where
  "safe_std xs = (if xs \<noteq> [] then pstdev xs else 0)"

text \<open>The numpy array operations of \<^verbatim>\<open>autocorr_lag1\<close>, elementwise on lists:
  \<^verbatim>\<open>x[1:]\<close> is \<open>tl x\<close> and \<^verbatim>\<open>x[:-1]\<close> is \<open>butlast x\<close>.\<close>

definition autocorr_lag1 :: "real list \<Rightarrow> real" where
  "autocorr_lag1 xs =
     (if length xs < 2 then 0
      else
        let x = map (\<lambda>v. v - mean xs) xs;
            denom = sum_list (map2 (*) x x)
        in if denom = 0 then 0
           else sum_list (map2 (*) (tl x) (butlast x)) / denom)"

text \<open>The estimator as the specification words it, by index: the centred series
  \<open>c i = xs ! i - \<mu>\<close>, the sum of the products of consecutive centred values over the sum
  of their squares, and 0 under either guard.\<close>

definition spec_autocorr_lag1 :: "real list \<Rightarrow> real" where
  "spec_autocorr_lag1 xs =
     (let n = length xs;
          \<mu> = (\<Sum>i<n. xs ! i) / real n;
          c = (\<lambda>i. xs ! i - \<mu>)
      in if n < 2 \<or> (\<Sum>i<n. (c i)\<^sup>2) = 0 then 0
         else (\<Sum>i<n - 1. c i * c (i + 1)) / (\<Sum>i<n. (c i)\<^sup>2))"

subsection \<open>The float64 arithmetic of numpy\<close>

text \<open>The number of binary digits of a positive integer, and \<open>\<lfloor>log\<^sub>2 x\<rfloor>\<close> of a positive real
  computed from it.\<close>

function bit_length :: "int \<Rightarrow> int" where
  "bit_length m = (if m \<le> 0 then 0 else 1 + bit_length (m div 2))"
  by pat_completeness auto
termination
  by (relation "measure nat") auto

declare bit_length.simps [simp del]

definition floor_log2 :: "real \<Rightarrow> int" where
  "floor_log2 x = (if 1 \<le> x then bit_length \<lfloor>x\<rfloor> - 1 else - bit_length (\<lceil>1 / x\<rceil> - 1))"

text \<open>Rounding to the nearest integer, a tie going to the even one.\<close>

definition round_half_even :: "real \<Rightarrow> int" where
  "round_half_even t =
     (let f = \<lfloor>t\<rfloor>; d = t - of_int f
      in if d < 1 / 2 then f
         else if 1 / 2 < d then f + 1
         else if even f then f else f + 1)"

text \<open>A float64 is a finite value, an infinity or NaN. The two zeros are not told apart:
  no operation of \<^verbatim>\<open>autocorr_lag1\<close> depends on the sign of a zero.\<close>

datatype f64 = Finite real | PInf | NInf | NaN

text \<open>The float64 nearest to a real: 53 significant bits, exponents down to the
  subnormal range (unit \<open>2\<^sup>-\<^sup>1\<^sup>0\<^sup>7\<^sup>4\<close>), ties to even, overflow to an infinity.\<close>

definition round64 :: "real \<Rightarrow> f64" where
  "round64 x =
     (if x = 0 then Finite 0
      else
        let e = max (floor_log2 \<bar>x\<bar> - 52) (- 1074);
            y = of_int (round_half_even (x / 2 powi e)) * 2 powi e
        in if 2 ^ 1024 \<le> \<bar>y\<bar> then (if 0 < x then PInf else NInf) else Finite y)"

text \<open>The IEEE operations: the exact result rounded, with the usual rules for the
  infinities and NaN. numpy divides by zero without raising.\<close>

fun f_neg :: "f64 \<Rightarrow> f64" where
  "f_neg (Finite a) = Finite (- a)"
| "f_neg PInf = NInf"
| "f_neg NInf = PInf"
| "f_neg NaN = NaN"

fun f_add :: "f64 \<Rightarrow> f64 \<Rightarrow> f64" where
  "f_add (Finite a) (Finite b) = round64 (a + b)"
| "f_add NaN y = NaN"
| "f_add x NaN = NaN"
| "f_add PInf NInf = NaN"
| "f_add NInf PInf = NaN"
| "f_add PInf y = PInf"
| "f_add NInf y = NInf"
| "f_add x PInf = PInf"
| "f_add x NInf = NInf"

definition f_sub :: "f64 \<Rightarrow> f64 \<Rightarrow> f64" where
  "f_sub x y = f_add x (f_neg y)"

fun f_mul :: "f64 \<Rightarrow> f64 \<Rightarrow> f64" where
  "f_mul (Finite a) (Finite b) = round64 (a * b)"
| "f_mul NaN y = NaN"
| "f_mul x NaN = NaN"
| "f_mul (Finite a) y = (if a = 0 then NaN else if 0 < a then y else f_neg y)"
| "f_mul x (Finite b) = (if b = 0 then NaN else if 0 < b then x else f_neg x)"
| "f_mul PInf y = y"
| "f_mul NInf y = f_neg y"

fun f_div :: "f64 \<Rightarrow> f64 \<Rightarrow> f64" where
  "f_div (Finite a) (Finite b) =
     (if b = 0 then (if a = 0 then NaN else if 0 < a then PInf else NInf)
      else round64 (a / b))"
| "f_div NaN y = NaN"
| "f_div x NaN = NaN"
| "f_div (Finite a) y = Finite 0"
| "f_div x (Finite b) = (if 0 \<le> b then x else f_neg x)"
| "f_div x y = NaN"

text \<open>
  \<^verbatim>\<open>ndarray.sum\<close> on a float64 array is \<^verbatim>\<open>np.add.reduce\<close>: the result starts at the identity 0
  and numpy's pairwise summation of the array is added to it. Fewer than 8 elements are
  added up from left to right; up to 128 elements go into 8 accumulators, one per residue
  class of the index, which are then combined in pairs, and the remainder is added one by
  one; a longer array is split in two near the middle, at a multiple of 8.
\<close>

definition lane :: "f64 list \<Rightarrow> nat \<Rightarrow> nat \<Rightarrow> f64" where
  "lane a m k = foldl f_add (a ! k) (map (\<lambda>j. a ! (8 * j + k)) [1 ..< m div 8])"

function pairwise_sum :: "f64 list \<Rightarrow> f64" where
  "pairwise_sum a =
     (let n = length a in
      if n < 8 then foldl f_add (Finite 0) a
      else if n \<le> 128 then
        (let m = n - n mod 8;
             r = map (lane a m) [0 ..< 8];
             res = f_add (f_add (f_add (r ! 0) (r ! 1)) (f_add (r ! 2) (r ! 3)))
                         (f_add (f_add (r ! 4) (r ! 5)) (f_add (r ! 6) (r ! 7)))
         in foldl f_add res (drop m a))
      else
        (let n2 = n div 2 - (n div 2) mod 8
         in f_add (pairwise_sum (take n2 a)) (pairwise_sum (drop n2 a))))"
  by pat_completeness auto
termination
  by (relation "measure length") (auto simp: Let_def)

declare pairwise_sum.simps [simp del]

definition np_sum :: "f64 list \<Rightarrow> f64" where
  "np_sum a = f_add (Finite 0) (pairwise_sum a)"

definition np_mean :: "f64 list \<Rightarrow> f64" where
  "np_mean a = f_div (np_sum a) (Finite (real (length a)))"

text \<open>\<^verbatim>\<open>autocorr_lag1\<close> with the arithmetic numpy performs: \<^verbatim>\<open>x - x.mean()\<close>, then the two sums of
  elementwise products and their quotient, every operation rounded to float64.\<close>

definition f64_centred :: "f64 list \<Rightarrow> f64 list" where
  "f64_centred xs = map (\<lambda>v. f_sub v (np_mean xs)) xs"

definition autocorr_lag1_f64 :: "f64 list \<Rightarrow> f64" where
  "autocorr_lag1_f64 xs =
     (if length xs < 2 then Finite 0
      else
        let x = f64_centred xs;
            denom = np_sum (map2 f_mul x x)
        in if denom = Finite 0 then Finite 0
           else f_div (np_sum (map2 f_mul (tl x) (butlast x))) denom)"

subsection \<open>One row per stored run record\<close>

record feature_row =
  json_file :: string
  profile :: json
  site_mode :: json
  start_time :: json
  end_time :: json
  chars_typed :: nat
  duration_s :: real
  computed_wpm :: real
  mean_iki_ms :: real
  std_iki_ms :: real
  median_iki_ms :: real
  min_iki_ms :: real
  max_iki_ms :: real
  backspace_count :: nat
  backspace_rate :: real
  burst_fraction :: real
  autocorr_lag1_col :: real
  extracted_wpm :: json
  extracted_accuracy :: json

text \<open>\<^verbatim>\<open>[k.get("timestamp") for k in ks if k.get("timestamp") is not None]\<close>\<close>

fun timestamps_of :: "json list \<Rightarrow> error + json list" where
  "timestamps_of [] = Inr []"
| "timestamps_of (k # ks) =
     (case get k ''timestamp'' JNull of
        Inl e \<Rightarrow> Inl e
      | Inr t \<Rightarrow>
          (case timestamps_of ks of
             Inl e \<Rightarrow> Inl e
           | Inr ts \<Rightarrow> Inr (if t \<noteq> JNull then t # ts else ts)))"

text \<open>\<^verbatim>\<open>[k.get("key") for k in ks]\<close>\<close>

definition keys_of :: "json list \<Rightarrow> error + json list" where
  "keys_of ks = map_e (\<lambda>k. get k ''key'' JNull) ks"

text \<open>\<^verbatim>\<open>min\<close> and \<^verbatim>\<open>max\<close> of a non-empty list.\<close>

definition py_min :: "real list \<Rightarrow> real" where
  "py_min xs = fold min (tl xs) (hd xs)"

definition py_max :: "real list \<Rightarrow> real" where
  "py_max xs = fold max (tl xs) (hd xs)"

text \<open>\<^verbatim>\<open>Path(path).name\<close>: what follows the last separator.\<close>

definition path_name :: "string \<Rightarrow> string" where
  "path_name path = rev (takeWhile (\<lambda>c. c \<noteq> CHR ''/'') (rev path))"

text \<open>The body of the loop over the log files, from the decoded record \<open>d\<close> to its row.
  The steps are in the order of the source, so the first exception raised is the source's.\<close>

definition extract_row :: "string \<Rightarrow> json \<Rightarrow> error + feature_row" where
  "extract_row path d =
     bind_e (get d ''meta'' (JObj [])) (\<lambda>meta.
     bind_e (get d ''keystroke_log'' (JArr [])) (\<lambda>ks_val.
     bind_e (iter ks_val) (\<lambda>ks.
     bind_e (timestamps_of ks) (\<lambda>timestamps.
     bind_e (keys_of ks) (\<lambda>keys.
     bind_e (inter_key_intervals timestamps) (\<lambda>ikis.
     let chars = length (filter (\<lambda>k. k \<notin> set [JStr ''Backspace'', JStr ''Shift'', JStr ''Enter'']) keys)
     in
     bind_e (if length timestamps \<ge> 2 then py_sub (last timestamps) (hd timestamps) else Inr 0)
       (\<lambda>duration.
     let wpm = (if duration > 0 then (real chars / 5) / (duration / 60) else 0);
         backspaces = length (filter (\<lambda>k. k = JStr ''Backspace'') keys);
         burst = (if ikis \<noteq> []
                  then real (length (filter (\<lambda>x. x < 30) ikis)) / real (length ikis)
                  else 0)
     in
     bind_e (get meta ''profile'' JNull) (\<lambda>m_profile.
     bind_e (get meta ''site_mode'' JNull) (\<lambda>m_site_mode.
     bind_e (get meta ''start_time'' JNull) (\<lambda>m_start_time.
     bind_e (get meta ''end_time'' JNull) (\<lambda>m_end_time.
     bind_e (get meta ''extracted_wpm'' JNull) (\<lambda>m_extracted_wpm.
     bind_e (get meta ''extracted_accuracy'' JNull) (\<lambda>m_extracted_accuracy.
       Inr \<lparr> json_file = path_name path,
             profile = m_profile,
             site_mode = m_site_mode,
             start_time = m_start_time,
             end_time = m_end_time,
             chars_typed = chars,
             duration_s = duration,
             computed_wpm = wpm,
             mean_iki_ms = safe_mean ikis,
             std_iki_ms = safe_std ikis,
             median_iki_ms = (if ikis \<noteq> [] then median ikis else 0),
             min_iki_ms = (if ikis \<noteq> [] then py_min ikis else 0),
             max_iki_ms = (if ikis \<noteq> [] then py_max ikis else 0),
             backspace_count = backspaces,
             backspace_rate = (if chars > 0 then real backspaces / real chars else 0),
             burst_fraction = burst,
             autocorr_lag1_col = autocorr_lag1 ikis,
             extracted_wpm = m_extracted_wpm,
             extracted_accuracy = m_extracted_accuracy \<rparr>)))))))))))))"



subsection \<open>Notions used to state the properties of the extractor\<close>

text \<open>The list \<^verbatim>\<open>timestamps\<close> of a record, as the first steps of the loop body compute it.\<close>

definition selected_timestamps :: "json \<Rightarrow> error + json list" where
  "selected_timestamps d =
     bind_e (get d ''keystroke_log'' (JArr [])) (\<lambda>ks_val.
     bind_e (iter ks_val) timestamps_of)"

text \<open>The selection as the specification words it: the timestamps of the keypress events
  only, those of backspace events left out.\<close>

definition spec_keypress_timestamps :: "json list \<Rightarrow> json list" where
  "spec_keypress_timestamps ks =
     map (\<lambda>k. case get k ''timestamp'' JNull of Inr t \<Rightarrow> t | Inl e \<Rightarrow> JNull)
       (filter (\<lambda>k. get k ''action'' JNull = Inr (JStr ''keypress'')) ks)"

text \<open>A stored record of a run in which \<^verbatim>\<open>ab\<close> was typed with one corrected typo, and a
  record whose timestamps were stored as strings.\<close>

definition typo_events :: "json list" where
  "typo_events =
     [JObj [(''key'', JStr ''x''), (''timestamp'', JNum 0), (''action'', JStr ''keypress'')],
      JObj [(''key'', JStr ''Backspace''), (''timestamp'', JNum 0.1), (''action'', JStr ''backspace'')],
      JObj [(''key'', JStr ''a''), (''timestamp'', JNum 0.15), (''action'', JStr ''keypress'')],
      JObj [(''key'', JStr ''b''), (''timestamp'', JNum 0.25), (''action'', JStr ''keypress'')]]"

definition typo_record :: json where
  "typo_record =
     JObj [(''meta'', JObj [(''profile'', JStr ''human_like''), (''site_mode'', JStr ''standard'')]),
           (''keystroke_log'', JArr typo_events),
           (''target_text_sample'', JStr ''ab'')]"


section \<open>Typing behaviour generator: \<^verbatim>\<open>bots/typespeed_bot.py\<close>\<close>

subsection \<open>The environment of a run\<close>

text \<open>
  The generator talks to a browser page, reads the wall clock, sleeps and draws random
  numbers. The answers of the environment are the fields of \<open>driver\<close>; what changes during
  a run is the \<open>world\<close>: the clock, how many driver calls and sleeps were made, how many
  random numbers were drawn, and the keystroke log (\<open>keylog\<close>, the list \<^verbatim>\<open>log\<close> of the
  source) that \<^verbatim>\<open>do_type_char\<close> appends to. \<open>type_text_profile\<close> returns the world it ends
  in; its \<open>keylog\<close> is the list the source returns.
\<close>

record keystroke_event =
  key :: string
  timestamp :: real
  action :: string

record args =
  mode :: string
  args_site_mode :: string
  delay_min :: int
  delay_max :: int
  fixed_delay_ms :: int
  max_chars :: int

record driver =
  selector_hidden_input :: string
    \<comment> \<open>\<^verbatim>\<open>SELECTOR_HIDDEN_INPUT\<close>\<close>
  focus_input_raises :: bool
    \<comment> \<open>\<^verbatim>\<open>wait_for_selector\<close> or \<^verbatim>\<open>click\<close> on the input selector raises\<close>
  focus_body_raises :: bool
    \<comment> \<open>\<^verbatim>\<open>page.click("body")\<close> raises\<close>
  raises :: "nat \<Rightarrow> bool"
    \<comment> \<open>whether the \<open>n\<close>-th keyboard or \<^verbatim>\<open>page.evaluate\<close> call raises\<close>
  latency :: "nat \<Rightarrow> real"
    \<comment> \<open>the time the \<open>n\<close>-th call takes; for a sleep, the time beyond the one asked for\<close>
  rand :: "nat \<Rightarrow> real"
    \<comment> \<open>the \<open>n\<close>-th draw as \<^verbatim>\<open>random.random()\<close> returns it\<close>
  rand_below :: "nat \<Rightarrow> nat"
    \<comment> \<open>the \<open>n\<close>-th draw as raw bits, for \<^verbatim>\<open>random.choice\<close>\<close>

record world =
  clock :: real
  calls :: nat
  draws :: nat
  keylog :: "keystroke_event list"

definition page_call :: "driver \<Rightarrow> world \<Rightarrow> world" where
  "page_call drv w = w\<lparr>clock := clock w + latency drv (calls w), calls := calls w + 1\<rparr>"

text \<open>\<^verbatim>\<open>time.sleep(secs)\<close> raises ValueError on a negative length.\<close>

definition sleep :: "driver \<Rightarrow> real \<Rightarrow> world \<Rightarrow> error + world" where
  "sleep drv secs w =
     (if secs < 0 then Inl ValueError
      else Inr (w\<lparr>clock := clock w + secs + latency drv (calls w), calls := calls w + 1\<rparr>))"

definition random :: "driver \<Rightarrow> world \<Rightarrow> real \<times> world" where
  "random drv w = (rand drv (draws w), w\<lparr>draws := draws w + 1\<rparr>)"

text \<open>\<^verbatim>\<open>random.uniform(a, b)\<close> is \<^verbatim>\<open>a + (b - a) * random()\<close>.\<close>

definition uniform :: "driver \<Rightarrow> real \<Rightarrow> real \<Rightarrow> world \<Rightarrow> real \<times> world" where
  "uniform drv a b w = (let (u, w') = random drv w in (a + (b - a) * u, w'))"

text \<open>\<^verbatim>\<open>random.choice(seq)\<close> is \<^verbatim>\<open>seq[randbelow(len(seq))]\<close>.\<close>

definition choice :: "driver \<Rightarrow> 'a list \<Rightarrow> world \<Rightarrow> 'a \<times> world" where
  "choice drv seq w = (seq ! (rand_below drv (draws w) mod length seq), w\<lparr>draws := draws w + 1\<rparr>)"

subsection \<open>\<^verbatim>\<open>type_text_profile\<close>\<close>

text \<open>
  The focus attempt. Both handlers swallow the exception (the inner one with
  \<^verbatim>\<open>pass\<close>), so the attempt always returns and nothing records its outcome.
\<close>

definition focus :: "driver \<Rightarrow> world \<Rightarrow> world" where
  "focus drv w =
     (let first_raises =
            (if selector_hidden_input drv \<noteq> [] then focus_input_raises drv
             else focus_body_raises drv);
          w1 = page_call drv w
      in if first_raises
         then page_call drv w1
         else w1)"

text \<open>The second \<open>page_call\<close> is the click on the body inside the first handler: whether it
  raises (\<open>focus_body_raises\<close>) makes no difference, its handler is \<^verbatim>\<open>pass\<close>.\<close>

text \<open>
  The key is sent with \<^verbatim>\<open>page.keyboard.press\<close> or \<^verbatim>\<open>page.keyboard.type\<close>; when that
  raises, \<^verbatim>\<open>page.evaluate\<close> dispatches a synthetic event instead, and an exception of
  that second call is not caught.
\<close>

definition send_key :: "driver \<Rightarrow> world \<Rightarrow> error + world" where
  "send_key drv w =
     (if raises drv (calls w) then
        (if raises drv (calls w + 1) then Inl DriverError
         else Inr (page_call drv (page_call drv w)))
      else Inr (page_call drv w))"

definition do_type_char :: "driver \<Rightarrow> string \<Rightarrow> world \<Rightarrow> error + world" where
  "do_type_char drv ch w =
     (let ts = clock w in
      bind_e (send_key drv w) (\<lambda>w1.
        Inr (w1\<lparr>keylog := keylog w1 @ [\<lparr>key = ch, timestamp = ts, action = ''keypress''\<rparr>]\<rparr>)))"

definition press_backspace :: "driver \<Rightarrow> world \<Rightarrow> error + world" where
  "press_backspace drv w =
     (let ts = clock w in
      bind_e (send_key drv w) (\<lambda>w1.
        Inr (w1\<lparr>keylog := keylog w1 @ [\<lparr>key = ''Backspace'', timestamp = ts, action = ''backspace''\<rparr>]\<rparr>)))"

text \<open>One pass through the body of the \<^verbatim>\<open>while\<close> loop at position \<open>i\<close>; every branch of
  the source ends with \<^verbatim>\<open>typed_count += 1\<close> and \<^verbatim>\<open>i += 1\<close>, which the loop below does.\<close>

definition type_step :: "driver \<Rightarrow> string \<Rightarrow> string \<Rightarrow> args \<Rightarrow> nat \<Rightarrow> world \<Rightarrow> error + world" where
  "type_step drv text prof a i w =
     (let ch = [text ! i] in
      if prof = ''superhuman'' then do_type_char drv ch w
      else if prof = ''bot_obvious'' then
        bind_e (do_type_char drv ch w) (\<lambda>w1.
          sleep drv (real_of_int (fixed_delay_ms a) / 1000) w1)
      else
        (let (r, w1) = random drv w in
         bind_e
           (if r < 0.02 \<and> i + 1 < length text then
              (let (wrong, w2) = choice drv ''abcdefghijklmnopqrstuvwxyz'' w1 in
               bind_e (do_type_char drv [wrong] w2) (\<lambda>w3.
               let (d, w4) = uniform drv (real_of_int (delay_min a)) (real_of_int (delay_max a)) w3 in
               bind_e (sleep drv (d / 1000) w4) (\<lambda>w5.
               bind_e (press_backspace drv w5) (\<lambda>w6.
                 do_type_char drv [text ! i] w6))))
            else do_type_char drv ch w1)
           (\<lambda>w7.
              let (d, w8) = uniform drv (real_of_int (delay_min a)) (real_of_int (delay_max a)) w7 in
              sleep drv (d / 1000) w8)))"

function type_loop :: "driver \<Rightarrow> string \<Rightarrow> string \<Rightarrow> args \<Rightarrow> nat \<Rightarrow> nat \<Rightarrow> world \<Rightarrow> error + world" where
  "type_loop drv text prof a i typed_count w =
     (if i < length text \<and> int typed_count < max_chars a then
        (case type_step drv text prof a i w of
           Inl e \<Rightarrow> Inl e
         | Inr w' \<Rightarrow> type_loop drv text prof a (i + 1) (typed_count + 1) w')
      else Inr w)"
  by pat_completeness auto
termination
  by (relation "measure (\<lambda>(drv, text, prof, a, i, typed_count, w). length text - i)") auto

declare type_loop.simps [simp del]

definition type_text_profile :: "driver \<Rightarrow> string \<Rightarrow> string \<Rightarrow> args \<Rightarrow> world \<Rightarrow> error + world" where
  "type_text_profile drv text prof a w =
     type_loop drv text prof a 0 0 (focus drv (w\<lparr>keylog := []\<rparr>))"

subsection \<open>\<^verbatim>\<open>run_iteration\<close>\<close>






subsection \<open>Notions used to state the properties of the generator\<close>



text \<open>What one pass appends: one keypress, or a wrong keypress, a backspace and the
  correct keypress, with timestamps in order between the clock before and after; with
  \<open>strict\<close>, the backspace is strictly later than the wrong keypress.\<close>

definition block :: "bool \<Rightarrow> real \<Rightarrow> real \<Rightarrow> keystroke_event list \<Rightarrow> bool" where
  "block strict lo hi new \<longleftrightarrow>
     (case new of
        [e] \<Rightarrow> action e = ''keypress'' \<and> lo \<le> timestamp e \<and> timestamp e \<le> hi
      | [a, b, c] \<Rightarrow>
          action a = ''keypress'' \<and> action b = ''backspace'' \<and> action c = ''keypress''
          \<and> lo \<le> timestamp a \<and> timestamp a \<le> timestamp b \<and> timestamp b \<le> timestamp c
          \<and> timestamp c \<le> hi
          \<and> (strict \<longrightarrow> timestamp a < timestamp b)
      | _ \<Rightarrow> False)"

text \<open>
  The defaults of \<^verbatim>\<open>parse_args\<close>, and a sample environment: the page can be focused, no
  call raises, every call takes a millisecond, the first draw of \<^verbatim>\<open>random.random()\<close> is
  below the 2% threshold and the later ones are 0.5, and \<^verbatim>\<open>random.choice\<close> picks the first
  letter.
\<close>

definition default_args :: args where
  "default_args =
     \<lparr>mode = ''human_like'', args_site_mode = ''standard'', delay_min = 40, delay_max = 220,
      fixed_delay_ms = 5, max_chars = 5000\<rparr>"

definition sample_driver :: driver where
  "sample_driver =
     \<lparr>selector_hidden_input = ''#typing-input'',
      focus_input_raises = False,
      focus_body_raises = False,
      raises = (\<lambda>n. False),
      latency = (\<lambda>n. 0.001),
      rand = (\<lambda>n. if n = 0 then 0.01 else 0.5),
      rand_below = (\<lambda>n. 0)\<rparr>"


definition initial_world :: world where
  "initial_world = \<lparr>clock = 0, calls = 0, draws = 0, keylog = []\<rparr>"

section \<open>Properties of the feature extractor\<close>

subsection \<open>Lag-1 autocorrelation\<close>

text \<open>
  In exact arithmetic the numpy formulation is the index formula of the specification,
  a constant series has autocorrelation 0, and the value lies between -1 and 1. These
  are facts of \<open>autocorr_lag1\<close>, the function read over the reals; what the float64
  computation does with them is settled on \<open>autocorr_lag1_f64\<close> below.
\<close>

lemma sum_list_nth: "sum_list (xs::real list) = (\<Sum>i<length xs. xs ! i)"
  by (simp add: sum_list_sum_nth atLeast0LessThan)

lemma lag_products_nth:
  "sum_list (map2 (*) (tl x) (butlast x)) = (\<Sum>i<length x - 1. (x::real list) ! i * x ! (i + 1))"
proof -
  have "sum_list (map2 (*) (tl x) (butlast x))
      = (\<Sum>i<length x - 1. map2 (*) (tl x) (butlast x) ! i)"
    by (simp add: sum_list_nth)
  also have "\<dots> = (\<Sum>i<length x - 1. x ! i * x ! (i + 1))"
    by (rule sum.cong) (auto simp: nth_tl nth_butlast mult.commute)
  finally show ?thesis .
qed

lemma squares_nth:
  "sum_list (map2 (*) x x) = (\<Sum>i<length x. ((x::real list) ! i)\<^sup>2)"
proof -
  have "sum_list (map2 (*) x x) = (\<Sum>i<length x. map2 (*) x x ! i)"
    by (simp add: sum_list_nth)
  also have "\<dots> = (\<Sum>i<length x. (x ! i)\<^sup>2)"
    by (rule sum.cong) (auto simp: power2_eq_square)
  finally show ?thesis .
qed

lemma autocorr_refines: "autocorr_lag1 xs = spec_autocorr_lag1 xs"
proof (cases "length xs < 2")
  case True
  then show ?thesis by (simp add: autocorr_lag1_def spec_autocorr_lag1_def)
next
  case False
  define x where "x = map (\<lambda>v. v - mean xs) xs"
  have len: "length x = length xs" by (simp add: x_def)
  have m: "mean xs = (\<Sum>i<length xs. xs ! i) / real (length xs)"
    by (simp add: mean_def sum_list_nth)
  have sq: "sum_list (map2 (*) x x) = (\<Sum>i<length xs. (xs ! i - mean xs)\<^sup>2)"
    unfolding squares_nth len by (rule sum.cong) (auto simp: x_def)
  have lag: "sum_list (map2 (*) (tl x) (butlast x))
      = (\<Sum>i<length xs - 1. (xs ! i - mean xs) * (xs ! (i + 1) - mean xs))"
    unfolding lag_products_nth len by (rule sum.cong) (auto simp: x_def)
  show ?thesis
    using False
    unfolding autocorr_lag1_def spec_autocorr_lag1_def Let_def x_def[symmetric] sq lag m[symmetric]
    by simp
qed

lemma autocorr_constant: "autocorr_lag1 (replicate n c) = 0"
proof -
  have "mean (replicate n c) = c" if "n \<noteq> 0"
    using that by (simp add: mean_def sum_list_replicate)
  then have "map (\<lambda>v. v - mean (replicate n c)) (replicate n c) = replicate n 0" if "2 \<le> n"
    using that by simp
  moreover have "sum_list (map2 (*) (replicate n (0::real)) (replicate n 0)) = 0"
    by (simp add: zip_replicate sum_list_replicate)
  ultimately show ?thesis
    by (simp add: autocorr_lag1_def Let_def)
qed




subsection \<open>Lag-1 autocorrelation in float64\<close>














lemmas f64_eval = round64_def floor_log2_def round_half_even_def bit_length.simps Let_def

lemmas f64_steps = autocorr_lag1_f64_def f64_centred_def np_mean_def np_sum_def
  pairwise_sum.simps f_sub_def

text \<open>
  \<^bold>\<open>C5.\<close> The guard \<^verbatim>\<open>denom == 0\<close> misses constant series whose mean is not exact in float64.
  For the series 0.1, 0.1, 0.1 the sum rounds to 0.30000000000000004, the mean to
  0.10000000000000002, every centred value is \<open>- 2\<^sup>-\<^sup>5\<^sup>6\<close>, the denominator is three times
  \<open>2\<^sup>-\<^sup>1\<^sup>1\<^sup>2\<close> and not 0, and the code returns 2/3 rounded, 0.6666666666666666, where the
  autocorrelation of a constant series is to be 0.
\<close>

theorem constant_series_not_zero:
  "autocorr_lag1_f64 [round64 (1 / 10), round64 (1 / 10), round64 (1 / 10)]
     = Finite (6004799503160661 / 9007199254740992)"
proof -
  have r: "round64 (1 / 10) = Finite (3602879701896397 / 36028797018963968)"
    by (simp add: f64_eval)
  show ?thesis
    unfolding r by (simp add: f64_steps f64_eval)
qed








subsection \<open>The end-to-end example\<close>

text \<open>
  \<^bold>\<open>C7.\<close> For the record of the seven keypresses of \<^verbatim>\<open>the cat\<close> at the timestamps
  0.0, 0.03, 0.08, 0.10, 0.15, 0.20, 0.25 and no backspace, the row has
  \<open>chars_typed = 7\<close>, \<open>duration_s = 0.25\<close>, \<open>computed_wpm = 336\<close>, \<open>backspace_count = 0\<close>
  and \<open>burst_fraction = 1/6\<close>: of the intervals 30, 50, 20, 50, 50, 50 ms only the 20 ms
  one is strictly below 30.
\<close>

theorem the_cat_example:
  "\<exists>row. extract_row ''data/raw_logs/run_iter1.json''
      (JObj [(''meta'', JObj [(''profile'', JStr ''superhuman'')]),
             (''keystroke_log'', JArr [
                JObj [(''key'', JStr ''t''), (''timestamp'', JNum 0.0), (''action'', JStr ''keypress'')],
                JObj [(''key'', JStr ''h''), (''timestamp'', JNum 0.03), (''action'', JStr ''keypress'')],
                JObj [(''key'', JStr ''e''), (''timestamp'', JNum 0.08), (''action'', JStr ''keypress'')],
                JObj [(''key'', JStr '' ''), (''timestamp'', JNum 0.10), (''action'', JStr ''keypress'')],
                JObj [(''key'', JStr ''c''), (''timestamp'', JNum 0.15), (''action'', JStr ''keypress'')],
                JObj [(''key'', JStr ''a''), (''timestamp'', JNum 0.20), (''action'', JStr ''keypress'')],
                JObj [(''key'', JStr ''t''), (''timestamp'', JNum 0.25), (''action'', JStr ''keypress'')]]),
             (''target_text_sample'', JStr ''the cat'')]) = Inr row
     \<and> chars_typed row = 7 \<and> duration_s row = 0.25 \<and> computed_wpm row = 336
     \<and> backspace_count row = 0 \<and> burst_fraction row = 1 / 6"
  unfolding extract_row_def
  by (simp add: get_def iter_def bind_e_def keys_of_def py_sub_def num_of_def path_name_def
      inter_key_intervals_def upt_rec)

subsection \<open>Rows, intervals and the batch\<close>

lemma bind_e_Inr: "bind_e m f = Inr y \<longleftrightarrow> (\<exists>x. m = Inr x \<and> f x = Inr y)"
  by (cases m) (simp_all add: bind_e_def)

lemma get_JObj:
  "get (JObj m) k dflt = Inr (case map_of m k of Some v \<Rightarrow> v | None \<Rightarrow> dflt)"
  by (simp add: get_def)

lemma row_of_parts:
  assumes meta: "get d ''meta'' (JObj []) = Inr (JObj m)"
    and ks: "get d ''keystroke_log'' (JArr []) = Inr ks_val" "iter ks_val = Inr ks"
    and ts: "timestamps_of ks = Inr ts" and keys: "keys_of ks = Inr keys"
    and ikis: "inter_key_intervals ts = Inr ikis"
    and dur: "(if length ts \<ge> 2 then py_sub (last ts) (hd ts) else Inr 0) = Inr duration"
  shows "\<exists>row. extract_row path d = Inr row
     \<and> duration_s row = duration
     \<and> computed_wpm row = (if duration > 0
          then (real (chars_typed row) / 5) / (duration / 60) else 0)
     \<and> mean_iki_ms row = safe_mean ikis \<and> std_iki_ms row = safe_std ikis
     \<and> median_iki_ms row = (if ikis \<noteq> [] then median ikis else 0)
     \<and> min_iki_ms row = (if ikis \<noteq> [] then py_min ikis else 0)
     \<and> max_iki_ms row = (if ikis \<noteq> [] then py_max ikis else 0)
     \<and> burst_fraction row = (if ikis \<noteq> []
          then real (length (filter (\<lambda>x. x < 30) ikis)) / real (length ikis) else 0)
     \<and> autocorr_lag1_col row = autocorr_lag1 ikis"
  unfolding extract_row_def
  by (simp add: meta ks ts keys ikis dur bind_e_def get_JObj Let_def del: One_nat_def)

lemma timestamps_then_keys: "timestamps_of ks = Inr ts \<Longrightarrow> \<exists>keys. keys_of ks = Inr keys"
proof (induction ks arbitrary: ts)
  case Nil
  then show ?case by (simp add: keys_of_def)
next
  case (Cons k ks)
  from Cons.prems obtain t ts' where t: "get k ''timestamp'' JNull = Inr t"
    and ts': "timestamps_of ks = Inr ts'"
    by (auto split: sum.splits)
  from t obtain kvs where "k = JObj kvs" by (cases k) (simp_all add: get_def)
  moreover from Cons.IH[OF ts'] obtain keys where "keys_of ks = Inr keys" by blast
  ultimately show ?case by (simp add: keys_of_def get_def)
qed

lemma few_timestamps_no_intervals: "length ts < 2 \<Longrightarrow> inter_key_intervals ts = Inr []"
  by (simp add: inter_key_intervals_def)

text \<open>
  \<^bold>\<open>C6\<close>, as amended. The selection that counts is the code's: the timestamps of all
  events that carry one, backspace events included. When a record has fewer than two
  such timestamps (and its \<^verbatim>\<open>meta\<close> is an object or absent, so that the row can be built),
  the list of inter-key intervals is empty and the row has mean, standard deviation,
  median, minimum, maximum, burst fraction and lag-1 autocorrelation of the intervals all
  0, \<open>duration_s = 0\<close> and \<open>computed_wpm = 0\<close>. Fewer than two keypress timestamps are
  not enough: one keypress and one backspace give an interval.
\<close>

theorem fewer_than_two_timestamps:
  assumes sel: "selected_timestamps d = Inr ts" and few: "length ts < 2"
    and meta: "get d ''meta'' (JObj []) = Inr (JObj m)"
  shows "inter_key_intervals ts = Inr []
    \<and> (\<exists>row. extract_row path d = Inr row
          \<and> mean_iki_ms row = 0 \<and> std_iki_ms row = 0 \<and> median_iki_ms row = 0
          \<and> min_iki_ms row = 0 \<and> max_iki_ms row = 0 \<and> burst_fraction row = 0
          \<and> autocorr_lag1_col row = 0 \<and> duration_s row = 0 \<and> computed_wpm row = 0)"
proof -
  from sel obtain ks_val ks where ks: "get d ''keystroke_log'' (JArr []) = Inr ks_val"
    "iter ks_val = Inr ks" and ts: "timestamps_of ks = Inr ts"
    by (auto simp: selected_timestamps_def bind_e_Inr)
  from timestamps_then_keys[OF ts] obtain keys where keys: "keys_of ks = Inr keys" by blast
  have ikis: "inter_key_intervals ts = Inr []" by (rule few_timestamps_no_intervals[OF few])
  have dur: "(if length ts \<ge> 2 then py_sub (last ts) (hd ts) else Inr 0) = Inr 0"
    using few by simp
  from row_of_parts[OF meta ks ts keys ikis dur, of path] ikis show ?thesis
    by (auto simp: safe_mean_def safe_std_def autocorr_lag1_def)
qed

lemma timestamps_of_objects:
  "timestamps_of (map JObj evs) =
     Inr (filter (\<lambda>t. t \<noteq> JNull)
           (map (\<lambda>kvs. case map_of kvs ''timestamp'' of Some t \<Rightarrow> t | None \<Rightarrow> JNull) evs))"
  by (induction evs) (simp_all add: get_def)

lemma row_from_selected_timestamps:
  assumes "extract_row path d = Inr row"
  shows "\<exists>ts ikis. selected_timestamps d = Inr ts \<and> inter_key_intervals ts = Inr ikis
     \<and> (if length ts \<ge> 2 then py_sub (last ts) (hd ts) else Inr 0) = Inr (duration_s row)
     \<and> mean_iki_ms row = safe_mean ikis \<and> std_iki_ms row = safe_std ikis
     \<and> median_iki_ms row = (if ikis \<noteq> [] then median ikis else 0)
     \<and> min_iki_ms row = (if ikis \<noteq> [] then py_min ikis else 0)
     \<and> max_iki_ms row = (if ikis \<noteq> [] then py_max ikis else 0)
     \<and> burst_fraction row = (if ikis \<noteq> []
          then real (length (filter (\<lambda>x. x < 30) ikis)) / real (length ikis) else 0)
     \<and> autocorr_lag1_col row = autocorr_lag1 ikis"
proof -
  from assms obtain meta ks_val ks ts keys ikis duration where
    ks: "get d ''keystroke_log'' (JArr []) = Inr ks_val" "iter ks_val = Inr ks"
    and ts: "timestamps_of ks = Inr ts"
    and ikis: "inter_key_intervals ts = Inr ikis"
    and dur: "(if length ts \<ge> 2 then py_sub (last ts) (hd ts) else Inr 0) = Inr duration"
    and row: "duration_s row = duration" "mean_iki_ms row = safe_mean ikis"
      "std_iki_ms row = safe_std ikis"
      "median_iki_ms row = (if ikis \<noteq> [] then median ikis else 0)"
      "min_iki_ms row = (if ikis \<noteq> [] then py_min ikis else 0)"
      "max_iki_ms row = (if ikis \<noteq> [] then py_max ikis else 0)"
      "burst_fraction row = (if ikis \<noteq> []
          then real (length (filter (\<lambda>x. x < 30) ikis)) / real (length ikis) else 0)"
      "autocorr_lag1_col row = autocorr_lag1 ikis"
    unfolding extract_row_def by (auto simp: bind_e_Inr Let_def simp del: One_nat_def)
  have "selected_timestamps d = Inr ts"
    using ks ts by (simp add: selected_timestamps_def bind_e_def)
  with ikis dur row show ?thesis by (simp del: One_nat_def)
qed



lemma typo_record_row: "\<exists>row. extract_row path typo_record = Inr row"
  unfolding extract_row_def typo_record_def typo_events_def
  by (simp add: get_def iter_def bind_e_def keys_of_def py_sub_def num_of_def
      inter_key_intervals_def upt_rec)



theorem fewer_than_two_timestamps_witness:
  "selected_timestamps
      (JObj [(''meta'', JObj []),
             (''keystroke_log'', JArr [JObj [(''key'', JStr ''a''), (''timestamp'', JNum 5)]])])
     = Inr [JNum 5]
   \<and> (\<exists>row. extract_row ''run.json''
         (JObj [(''meta'', JObj []),
                (''keystroke_log'', JArr [JObj [(''key'', JStr ''a''), (''timestamp'', JNum 5)]])])
         = Inr row
       \<and> mean_iki_ms row = 0 \<and> duration_s row = 0 \<and> computed_wpm row = 0)"
proof -
  let ?d = "JObj [(''meta'', JObj []),
             (''keystroke_log'', JArr [JObj [(''key'', JStr ''a''), (''timestamp'', JNum 5)]])]"
  have sel: "selected_timestamps ?d = Inr [JNum 5]"
    by (simp add: selected_timestamps_def get_def iter_def bind_e_def)
  have few: "length [JNum 5] < 2" by simp
  have meta: "get ?d ''meta'' (JObj []) = Inr (JObj [])" by (simp add: get_def)
  from fewer_than_two_timestamps[OF sel few meta, of "''run.json''"] sel show ?thesis by blast
qed

theorem one_keypress_one_backspace_counterexample:
  "length (spec_keypress_timestamps
      [JObj [(''key'', JStr ''x''), (''timestamp'', JNum 0), (''action'', JStr ''keypress'')],
       JObj [(''key'', JStr ''Backspace''), (''timestamp'', JNum 0.1), (''action'', JStr ''backspace'')]])
     < 2
   \<and> (\<exists>row. extract_row ''run.json''
         (JObj [(''meta'', JObj []),
                (''keystroke_log'', JArr
                  [JObj [(''key'', JStr ''x''), (''timestamp'', JNum 0), (''action'', JStr ''keypress'')],
                   JObj [(''key'', JStr ''Backspace''), (''timestamp'', JNum 0.1),
                         (''action'', JStr ''backspace'')]])])
         = Inr row
       \<and> duration_s row = 0.1 \<and> mean_iki_ms row = 100 \<and> computed_wpm row = 120)"
proof -
  have a: "length (spec_keypress_timestamps
      [JObj [(''key'', JStr ''x''), (''timestamp'', JNum 0), (''action'', JStr ''keypress'')],
       JObj [(''key'', JStr ''Backspace''), (''timestamp'', JNum 0.1), (''action'', JStr ''backspace'')]])
     < 2"
    by (simp add: spec_keypress_timestamps_def get_def)
  have b: "\<exists>row. extract_row ''run.json''
         (JObj [(''meta'', JObj []),
                (''keystroke_log'', JArr
                  [JObj [(''key'', JStr ''x''), (''timestamp'', JNum 0), (''action'', JStr ''keypress'')],
                   JObj [(''key'', JStr ''Backspace''), (''timestamp'', JNum 0.1),
                         (''action'', JStr ''backspace'')]])])
         = Inr row
       \<and> duration_s row = 0.1 \<and> mean_iki_ms row = 100 \<and> computed_wpm row = 120"
    unfolding extract_row_def
    by (simp add: get_def iter_def bind_e_def keys_of_def py_sub_def num_of_def path_name_def
        inter_key_intervals_def upt_rec safe_mean_def mean_def)
  from a b show ?thesis by (rule conjI)
qed

text \<open>
  \<^bold>\<open>C1\<close>, as amended. The interval computation selects by timestamp, not by action: for a
  record whose keystroke log is a list of objects, the inter-key intervals, \<open>duration_s\<close>
  and the interval statistics of its row are computed from the non-null timestamps of
  all the events, those of backspace events included.
\<close>

theorem intervals_use_every_timestamped_event:
  assumes row: "extract_row path d = Inr row"
    and evs: "get d ''keystroke_log'' (JArr []) = Inr (JArr (map JObj evs))"
  shows "\<exists>ts ikis.
       ts = filter (\<lambda>t. t \<noteq> JNull)
              (map (\<lambda>kvs. case map_of kvs ''timestamp'' of Some t \<Rightarrow> t | None \<Rightarrow> JNull) evs)
     \<and> inter_key_intervals ts = Inr ikis
     \<and> (if length ts \<ge> 2 then py_sub (last ts) (hd ts) else Inr 0) = Inr (duration_s row)
     \<and> mean_iki_ms row = safe_mean ikis \<and> std_iki_ms row = safe_std ikis
     \<and> median_iki_ms row = (if ikis \<noteq> [] then median ikis else 0)
     \<and> min_iki_ms row = (if ikis \<noteq> [] then py_min ikis else 0)
     \<and> max_iki_ms row = (if ikis \<noteq> [] then py_max ikis else 0)
     \<and> burst_fraction row = (if ikis \<noteq> []
          then real (length (filter (\<lambda>x. x < 30) ikis)) / real (length ikis) else 0)
     \<and> autocorr_lag1_col row = autocorr_lag1 ikis"
proof -
  have "selected_timestamps d = Inr (filter (\<lambda>t. t \<noteq> JNull)
          (map (\<lambda>kvs. case map_of kvs ''timestamp'' of Some t \<Rightarrow> t | None \<Rightarrow> JNull) evs))"
    using evs by (simp add: selected_timestamps_def bind_e_def iter_def timestamps_of_objects)
  with row_from_selected_timestamps[OF row] show ?thesis by (auto simp del: One_nat_def)
qed

theorem intervals_use_every_timestamped_event_witness:
  "\<exists>row ikis. extract_row ''run.json'' typo_record = Inr row
     \<and> inter_key_intervals [JNum 0, JNum 0.1, JNum 0.15, JNum 0.25] = Inr ikis
     \<and> mean_iki_ms row = safe_mean ikis \<and> autocorr_lag1_col row = autocorr_lag1 ikis"
proof -
  let ?evs = "[[(''key'', JStr ''x''), (''timestamp'', JNum 0), (''action'', JStr ''keypress'')],
      [(''key'', JStr ''Backspace''), (''timestamp'', JNum 0.1), (''action'', JStr ''backspace'')],
      [(''key'', JStr ''a''), (''timestamp'', JNum 0.15), (''action'', JStr ''keypress'')],
      [(''key'', JStr ''b''), (''timestamp'', JNum 0.25), (''action'', JStr ''keypress'')]]"
  from typo_record_row obtain row where row: "extract_row ''run.json'' typo_record = Inr row"
    by blast
  have evs: "get typo_record ''keystroke_log'' (JArr []) = Inr (JArr (map JObj ?evs))"
    by (simp add: typo_record_def typo_events_def get_def)
  from intervals_use_every_timestamped_event[OF row evs] row show ?thesis by auto
qed

theorem backspace_timestamps_counterexample:
  "selected_timestamps typo_record = Inr [JNum 0, JNum 0.1, JNum 0.15, JNum 0.25]
   \<and> spec_keypress_timestamps typo_events = [JNum 0, JNum 0.15, JNum 0.25]
   \<and> inter_key_intervals (spec_keypress_timestamps typo_events) = Inr [150, 100]
   \<and> (\<exists>row. extract_row ''run.json'' typo_record = Inr row
         \<and> min_iki_ms row = 50 \<and> mean_iki_ms row = 250 / 3)"
proof -
  have a: "selected_timestamps typo_record = Inr [JNum 0, JNum 0.1, JNum 0.15, JNum 0.25]"
    by (simp add: selected_timestamps_def typo_record_def typo_events_def get_def iter_def bind_e_def)
  have b: "spec_keypress_timestamps typo_events = [JNum 0, JNum 0.15, JNum 0.25]"
    by (simp add: spec_keypress_timestamps_def typo_events_def get_def)
  have c: "inter_key_intervals [JNum 0, JNum 0.15, JNum 0.25] = Inr [150, 100]"
    by (simp add: inter_key_intervals_def upt_rec py_sub_def num_of_def bind_e_def)
  have d: "\<exists>row. extract_row ''run.json'' typo_record = Inr row
         \<and> min_iki_ms row = 50 \<and> mean_iki_ms row = 250 / 3"
    unfolding extract_row_def typo_record_def typo_events_def
    by (simp add: get_def iter_def bind_e_def keys_of_def py_sub_def num_of_def path_name_def
        inter_key_intervals_def upt_rec py_min_def safe_mean_def mean_def)
  from a b c d show ?thesis by simp
qed





section \<open>Properties of the generator\<close>

subsection \<open>What one pass of the loop appends\<close>

lemma block_cases:
  assumes "block strict lo hi new"
  obtains e where "new = [e]" "action e = ''keypress''" "lo \<le> timestamp e" "timestamp e \<le> hi"
  | a b c where "new = [a, b, c]" "action a = ''keypress''" "action b = ''backspace''"
      "action c = ''keypress''" "lo \<le> timestamp a" "timestamp a \<le> timestamp b"
      "timestamp b \<le> timestamp c" "timestamp c \<le> hi" "strict \<longrightarrow> timestamp a < timestamp b"
  using assms unfolding block_def by (auto split: list.splits)



lemma send_key_Inr:
  assumes "\<forall>n. 0 \<le> latency drv n" and "send_key drv w = Inr w'"
  shows "keylog w' = keylog w \<and> draws w' = draws w \<and> clock w \<le> clock w'"
proof -
  have a: "0 \<le> latency drv (calls w)" and b: "0 \<le> latency drv (Suc (calls w))"
    using assms(1) by blast+
  show ?thesis
    using assms(2) a b by (auto simp: send_key_def page_call_def split: if_splits)
qed

lemma do_type_char_Inr:
  assumes "\<forall>n. 0 \<le> latency drv n" and "do_type_char drv ch w = Inr w'"
  shows "keylog w' = keylog w @ [\<lparr>key = ch, timestamp = clock w, action = ''keypress''\<rparr>]
         \<and> draws w' = draws w \<and> clock w \<le> clock w'"
  using assms(2) send_key_Inr[OF assms(1)]
  by (auto simp: do_type_char_def Let_def bind_e_Inr)

lemma press_backspace_Inr:
  assumes "\<forall>n. 0 \<le> latency drv n" and "press_backspace drv w = Inr w'"
  shows "keylog w' = keylog w @ [\<lparr>key = ''Backspace'', timestamp = clock w, action = ''backspace''\<rparr>]
         \<and> draws w' = draws w \<and> clock w \<le> clock w'"
  using assms(2) send_key_Inr[OF assms(1)]
  by (auto simp: press_backspace_def Let_def bind_e_Inr)

lemma sleep_Inr:
  assumes "\<forall>n. 0 \<le> latency drv n" and "sleep drv secs w = Inr w'"
  shows "keylog w' = keylog w \<and> draws w' = draws w \<and> clock w \<le> clock w' \<and> clock w + secs \<le> clock w'"
proof -
  have a: "0 \<le> latency drv (calls w)" using assms(1) by blast
  show ?thesis using assms(2) a by (auto simp: sleep_def split: if_splits)
qed

lemma random_unchanged: "random drv w = (r, w') \<Longrightarrow> keylog w' = keylog w \<and> clock w' = clock w"
  by (auto simp: random_def)

lemma uniform_unchanged: "uniform drv x y w = (d, w') \<Longrightarrow> keylog w' = keylog w \<and> clock w' = clock w"
  by (auto simp: uniform_def random_def Let_def)

lemma choice_unchanged: "choice drv seq w = (c, w') \<Longrightarrow> keylog w' = keylog w \<and> clock w' = clock w"
  by (auto simp: choice_def)

lemma uniform_pos:
  assumes "0 < x" "0 < y" "\<forall>n. 0 \<le> rand drv n \<and> rand drv n \<le> 1"
    and "uniform drv x y w = (d, w')"
  shows "0 < d"
proof -
  define u where "u = rand drv (draws w)"
  have u: "0 \<le> u" "u \<le> 1" using assms(3) by (auto simp: u_def)
  have d: "d = x * (1 - u) + y * u"
    using assms(4) by (auto simp: uniform_def random_def u_def algebra_simps)
  show ?thesis
  proof (cases "u = 0")
    case True
    then show ?thesis using d assms(1) by simp
  next
    case False
    with u have "0 < u" by simp
    then have "0 < y * u" using assms(2) by simp
    moreover have "0 \<le> x * (1 - u)" using assms(1) u by simp
    ultimately show ?thesis using d by linarith
  qed
qed

lemma type_step_block:
  assumes lat: "\<forall>n. 0 \<le> latency drv n" and step: "type_step drv text prof a i w = Inr w'"
    and pos: "strict \<longrightarrow> 0 < delay_min a \<and> 0 < delay_max a \<and> (\<forall>n. 0 \<le> rand drv n \<and> rand drv n \<le> 1)"
  shows "\<exists>new. keylog w' = keylog w @ new \<and> block strict (clock w) (clock w') new"
proof -
  consider (super) "prof = ''superhuman''"
    | (bot) "prof \<noteq> ''superhuman''" "prof = ''bot_obvious''"
    | (human) "prof \<noteq> ''superhuman''" "prof \<noteq> ''bot_obvious''" by blast
  then show ?thesis
  proof cases
    case super
    with step have "do_type_char drv [text ! i] w = Inr w'" by (simp add: type_step_def)
    from do_type_char_Inr[OF lat this] show ?thesis by (simp add: block_def)
  next
    case bot
    with step obtain w1 where 1: "do_type_char drv [text ! i] w = Inr w1"
      and 2: "sleep drv (real_of_int (fixed_delay_ms a) / 1000) w1 = Inr w'"
      by (auto simp: type_step_def bind_e_Inr)
    from do_type_char_Inr[OF lat 1] sleep_Inr[OF lat 2] show ?thesis by (simp add: block_def)
  next
    case human
    obtain r w1 where r: "random drv w = (r, w1)" by (cases "random drv w")
    from step human r obtain w7 where
      body: "(if r < 0.02 \<and> i + 1 < length text then
              (let (wrong, w2) = choice drv ''abcdefghijklmnopqrstuvwxyz'' w1 in
               bind_e (do_type_char drv [wrong] w2) (\<lambda>w3.
               let (d, w4) = uniform drv (real_of_int (delay_min a)) (real_of_int (delay_max a)) w3 in
               bind_e (sleep drv (d / 1000) w4) (\<lambda>w5.
               bind_e (press_backspace drv w5) (\<lambda>w6.
                 do_type_char drv [text ! i] w6))))
            else do_type_char drv [text ! i] w1) = Inr w7"
      and tail: "(let (d, w8) = uniform drv (real_of_int (delay_min a)) (real_of_int (delay_max a)) w7 in
              sleep drv (d / 1000) w8) = Inr w'"
      by (auto simp: type_step_def bind_e_Inr Let_def)
    obtain d w8 where u: "uniform drv (real_of_int (delay_min a)) (real_of_int (delay_max a)) w7 = (d, w8)"
      by (cases "uniform drv (real_of_int (delay_min a)) (real_of_int (delay_max a)) w7")
    with tail have sl: "sleep drv (d / 1000) w8 = Inr w'" by simp
    have end_eq: "keylog w' = keylog w7" and end_le: "clock w7 \<le> clock w'"
      using sleep_Inr[OF lat sl] uniform_unchanged[OF u] by auto
    have start: "keylog w1 = keylog w" "clock w1 = clock w" using random_unchanged[OF r] by auto
    show ?thesis
    proof (cases "r < 0.02 \<and> i + 1 < length text")
      case False
      with body have "do_type_char drv [text ! i] w1 = Inr w7" by auto
      from do_type_char_Inr[OF lat this] start end_eq end_le show ?thesis
        by (simp add: block_def)
    next
      case True
      obtain wrong w2 where c: "choice drv ''abcdefghijklmnopqrstuvwxyz'' w1 = (wrong, w2)"
        by (cases "choice drv ''abcdefghijklmnopqrstuvwxyz'' w1")
      from body True c obtain w3 where
        k1: "do_type_char drv [wrong] w2 = Inr w3"
        and rest1: "(let (d, w4) = uniform drv (real_of_int (delay_min a)) (real_of_int (delay_max a)) w3 in
               bind_e (sleep drv (d / 1000) w4) (\<lambda>w5.
               bind_e (press_backspace drv w5) (\<lambda>w6.
                 do_type_char drv [text ! i] w6))) = Inr w7"
        by (auto simp: bind_e_Inr)
      obtain d' w4 where u': "uniform drv (real_of_int (delay_min a)) (real_of_int (delay_max a)) w3 = (d', w4)"
        by (cases "uniform drv (real_of_int (delay_min a)) (real_of_int (delay_max a)) w3")
      from rest1 u' obtain w5 w6 where
        s1: "sleep drv (d' / 1000) w4 = Inr w5"
        and b1: "press_backspace drv w5 = Inr w6"
        and k2: "do_type_char drv [text ! i] w6 = Inr w7"
        by (auto simp: bind_e_Inr)
      have gap: "strict \<longrightarrow> clock w2 < clock w5"
      proof
        assume strict
        with pos have "0 < real_of_int (delay_min a)" "0 < real_of_int (delay_max a)"
          "\<forall>n. 0 \<le> rand drv n \<and> rand drv n \<le> 1" by simp_all
        from uniform_pos[OF this u'] have "0 < d' / 1000" by simp
        with do_type_char_Inr[OF lat k1] uniform_unchanged[OF u'] sleep_Inr[OF lat s1]
        show "clock w2 < clock w5" by linarith
      qed
      from choice_unchanged[OF c] do_type_char_Inr[OF lat k1] uniform_unchanged[OF u']
        sleep_Inr[OF lat s1] press_backspace_Inr[OF lat b1] do_type_char_Inr[OF lat k2]
        start end_eq end_le gap
      show ?thesis by (simp add: block_def)
    qed
  qed
qed

lemma type_step_clock:
  assumes lat: "\<forall>n. 0 \<le> latency drv n" and step: "type_step drv text prof a i w = Inr w'"
  shows "clock w \<le> clock w'"
  using type_step_block[OF assms, of False] by (auto elim!: block_cases)


lemma send_key_total:
  assumes "\<forall>n. raises drv n \<longrightarrow> \<not> raises drv (Suc n)"
  shows "\<exists>w'. send_key drv w = Inr w'"
  using assms by (auto simp: send_key_def)

lemma do_type_char_total:
  assumes "\<forall>n. raises drv n \<longrightarrow> \<not> raises drv (Suc n)"
  shows "\<exists>w'. do_type_char drv ch w = Inr w'"
  using send_key_total[OF assms, of w] by (auto simp: do_type_char_def bind_e_def Let_def)

lemma press_backspace_total:
  assumes "\<forall>n. raises drv n \<longrightarrow> \<not> raises drv (Suc n)"
  shows "\<exists>w'. press_backspace drv w = Inr w'"
  using send_key_total[OF assms, of w] by (auto simp: press_backspace_def bind_e_def Let_def)

lemma sleep_total: "0 \<le> secs \<Longrightarrow> \<exists>w'. sleep drv secs w = Inr w'"
  by (simp add: sleep_def)

lemma uniform_nonneg:
  assumes "0 \<le> x" "0 \<le> y" "\<forall>n. 0 \<le> rand drv n \<and> rand drv n \<le> 1"
    and "uniform drv x y w = (d, w')"
  shows "0 \<le> d"
proof -
  define u where "u = rand drv (draws w)"
  have u: "0 \<le> u" "u \<le> 1" using assms(3) by (auto simp: u_def)
  have "d = x + (y - x) * u" using assms(4) by (auto simp: uniform_def random_def u_def)
  also have "\<dots> = x * (1 - u) + y * u" by (simp add: algebra_simps)
  finally show ?thesis using assms(1,2) u by simp
qed

lemma uniform_sleep_total:
  assumes "0 \<le> delay_min a" "0 \<le> delay_max a" "\<forall>n. 0 \<le> rand drv n \<and> rand drv n \<le> 1"
  shows "\<exists>w'. (let (d, w8) = uniform drv (real_of_int (delay_min a)) (real_of_int (delay_max a)) w
               in sleep drv (d / 1000) w8) = Inr w'"
proof -
  obtain d w8 where u: "uniform drv (real_of_int (delay_min a)) (real_of_int (delay_max a)) w = (d, w8)"
    by (cases "uniform drv (real_of_int (delay_min a)) (real_of_int (delay_max a)) w")
  have "0 \<le> d" using uniform_nonneg[OF _ _ assms(3) u] assms(1,2) by simp
  then show ?thesis using u sleep_total[of "d / 1000" drv w8] by simp
qed

lemma type_step_total:
  assumes fb: "\<forall>n. raises drv n \<longrightarrow> \<not> raises drv (Suc n)"
    and fd: "0 \<le> fixed_delay_ms a" and dmin: "0 \<le> delay_min a" and dmax: "0 \<le> delay_max a"
    and rnd: "\<forall>n. 0 \<le> rand drv n \<and> rand drv n \<le> 1"
  shows "\<exists>w'. type_step drv text prof a i w = Inr w'"
proof -
  consider (super) "prof = ''superhuman''"
    | (bot) "prof \<noteq> ''superhuman''" "prof = ''bot_obvious''"
    | (human) "prof \<noteq> ''superhuman''" "prof \<noteq> ''bot_obvious''" by blast
  then show ?thesis
  proof cases
    case super
    then show ?thesis using do_type_char_total[OF fb] by (simp add: type_step_def)
  next
    case bot
    obtain w1 where 1: "do_type_char drv [text ! i] w = Inr w1"
      using do_type_char_total[OF fb] by blast
    have "0 \<le> real_of_int (fixed_delay_ms a) / 1000" using fd by simp
    from sleep_total[OF this] 1 bot show ?thesis by (simp add: type_step_def bind_e_def)
  next
    case human
    obtain r w1 where r: "random drv w = (r, w1)" by (cases "random drv w")
    have "\<exists>w7. (if r < 0.02 \<and> i + 1 < length text then
              (let (wrong, w2) = choice drv ''abcdefghijklmnopqrstuvwxyz'' w1 in
               bind_e (do_type_char drv [wrong] w2) (\<lambda>w3.
               let (d, w4) = uniform drv (real_of_int (delay_min a)) (real_of_int (delay_max a)) w3 in
               bind_e (sleep drv (d / 1000) w4) (\<lambda>w5.
               bind_e (press_backspace drv w5) (\<lambda>w6.
                 do_type_char drv [text ! i] w6))))
            else do_type_char drv [text ! i] w1) = Inr w7"
    proof (cases "r < 0.02 \<and> i + 1 < length text")
      case False
      then show ?thesis using do_type_char_total[OF fb, of "[text ! i]" w1]
        by (simp only: if_False)
    next
      case True
      obtain wrong w2 where c: "choice drv ''abcdefghijklmnopqrstuvwxyz'' w1 = (wrong, w2)"
        by (cases "choice drv ''abcdefghijklmnopqrstuvwxyz'' w1")
      obtain w3 where k1: "do_type_char drv [wrong] w2 = Inr w3"
        using do_type_char_total[OF fb] by blast
      obtain w5 where s1: "(let (d, w4) = uniform drv (real_of_int (delay_min a)) (real_of_int (delay_max a)) w3
               in sleep drv (d / 1000) w4) = Inr w5"
        using uniform_sleep_total[OF dmin dmax rnd] by blast
      obtain w6 where b1: "press_backspace drv w5 = Inr w6"
        using press_backspace_total[OF fb] by blast
      obtain w7 where k2: "do_type_char drv [text ! i] w6 = Inr w7"
        using do_type_char_total[OF fb] by blast
      have "(let (wrong, w2) = choice drv ''abcdefghijklmnopqrstuvwxyz'' w1 in
               bind_e (do_type_char drv [wrong] w2) (\<lambda>w3.
               let (d, w4) = uniform drv (real_of_int (delay_min a)) (real_of_int (delay_max a)) w3 in
               bind_e (sleep drv (d / 1000) w4) (\<lambda>w5.
               bind_e (press_backspace drv w5) (\<lambda>w6.
                 do_type_char drv [text ! i] w6)))) = Inr w7"
        using c k1 s1 b1 k2 by (auto simp: bind_e_def split: prod.splits sum.splits)
      with True show ?thesis by simp
    qed
    then obtain w7 where body: "(if r < 0.02 \<and> i + 1 < length text then
              (let (wrong, w2) = choice drv ''abcdefghijklmnopqrstuvwxyz'' w1 in
               bind_e (do_type_char drv [wrong] w2) (\<lambda>w3.
               let (d, w4) = uniform drv (real_of_int (delay_min a)) (real_of_int (delay_max a)) w3 in
               bind_e (sleep drv (d / 1000) w4) (\<lambda>w5.
               bind_e (press_backspace drv w5) (\<lambda>w6.
                 do_type_char drv [text ! i] w6))))
            else do_type_char drv [text ! i] w1) = Inr w7" by blast
    obtain w' where "(let (d, w8) = uniform drv (real_of_int (delay_min a)) (real_of_int (delay_max a)) w7
               in sleep drv (d / 1000) w8) = Inr w'"
      using uniform_sleep_total[OF dmin dmax rnd] by blast
    with human r body show ?thesis
      by (simp add: type_step_def bind_e_def)
  qed
qed

lemma type_loop_total:
  "\<forall>n. raises drv n \<longrightarrow> \<not> raises drv (Suc n) \<Longrightarrow> 0 \<le> fixed_delay_ms a \<Longrightarrow> 0 \<le> delay_min a
   \<Longrightarrow> 0 \<le> delay_max a \<Longrightarrow> \<forall>n. 0 \<le> rand drv n \<and> rand drv n \<le> 1
   \<Longrightarrow> \<exists>w'. type_loop drv text prof a i typed_count w = Inr w'"
proof (induction drv "text" prof a i typed_count w rule: type_loop.induct)
  case (1 drv "text" prof a i typed_count w)
  show ?case
  proof (cases "i < length text \<and> int typed_count < max_chars a")
    case False
    then have "type_loop drv text prof a i typed_count w = Inr w"
      by (subst type_loop.simps) (simp only: if_False)
    then show ?thesis by blast
  next
    case True
    obtain w1 where st: "type_step drv text prof a i w = Inr w1"
      using type_step_total[OF "1.prems"] by blast
    from "1.IH"[OF True st "1.prems"] obtain w' where
      "type_loop drv text prof a (i + 1) (typed_count + 1) w1 = Inr w'" by blast
    with True st have "type_loop drv text prof a i typed_count w = Inr w'"
      by (subst type_loop.simps) simp
    then show ?thesis by blast
  qed
qed

lemma type_loop_extends:
  "\<forall>n. 0 \<le> latency drv n \<Longrightarrow> type_loop drv text prof a i typed_count w = Inr w'
   \<Longrightarrow> \<exists>rest. keylog w' = keylog w @ rest"
proof (induction drv "text" prof a i typed_count w rule: type_loop.induct)
  case (1 drv "text" prof a i typed_count w)
  note lat = "1.prems"(1)
  show ?case
  proof (cases "i < length text \<and> int typed_count < max_chars a")
    case False
    with "1.prems" show ?thesis by (simp add: type_loop.simps)
  next
    case True
    with "1.prems"(2) obtain w1 where st: "type_step drv text prof a i w = Inr w1"
      and lp: "type_loop drv text prof a (i + 1) (typed_count + 1) w1 = Inr w'"
      by (subst (asm) type_loop.simps) (auto split: sum.splits)
    from type_step_block[OF lat st, of False] obtain new where "keylog w1 = keylog w @ new"
      by auto
    moreover from "1.IH"[OF True st lat lp] obtain rest where "keylog w' = keylog w1 @ rest" by blast
    ultimately show ?thesis by simp
  qed
qed

lemma focus_keylog: "keylog (focus drv w) = keylog w"
  by (simp add: focus_def page_call_def Let_def)

text \<open>
  \<^bold>\<open>C2\<close>, as amended. A total focus failure is swallowed and never signalled: when neither
  the input selector nor the body can be focused, the generator still goes on to type.
  With a clock that does not run backwards, an emission fallback that works whenever the
  primary call raises, non-negative delays and a non-empty text, the run returns a log
  that is not empty and starts with a keypress.
\<close>

theorem focus_failure_not_signalled:
  assumes "focus_input_raises drv" and "focus_body_raises drv"
    and lat: "\<forall>n. 0 \<le> latency drv n"
    and fb: "\<forall>n. raises drv n \<longrightarrow> \<not> raises drv (Suc n)"
    and fd: "0 \<le> fixed_delay_ms a" and dmin: "0 \<le> delay_min a" and dmax: "0 \<le> delay_max a"
    and rnd: "\<forall>n. 0 \<le> rand drv n \<and> rand drv n \<le> 1"
    and ne: "text \<noteq> []" and cap: "0 < max_chars a"
  shows "\<exists>w'. type_text_profile drv text prof a w = Inr w'
           \<and> keylog w' \<noteq> [] \<and> action (hd (keylog w')) = ''keypress''"
proof -
  define w0 where "w0 = focus drv (w\<lparr>keylog := []\<rparr>)"
  have k0: "keylog w0 = []" by (simp add: w0_def focus_keylog)
  obtain w' where run: "type_loop drv text prof a 0 0 w0 = Inr w'"
    using type_loop_total[OF fb fd dmin dmax rnd] by blast
  have enter: "0 < length text \<and> int 0 < max_chars a" using ne cap by simp
  from run enter obtain w1 where st: "type_step drv text prof a 0 w0 = Inr w1"
    and lp: "type_loop drv text prof a (0 + 1) (0 + 1) w1 = Inr w'"
    by (subst (asm) type_loop.simps) (auto split: sum.splits)
  from type_step_block[OF lat st, of False] k0 obtain new where
    new: "keylog w1 = new" "block False (clock w0) (clock w1) new" by auto
  from type_loop_extends[OF lat lp] obtain rest where rest: "keylog w' = keylog w1 @ rest" by blast
  from new(2) have "new \<noteq> [] \<and> action (hd new) = ''keypress''"
    by (auto elim!: block_cases)
  with new(1) rest have "keylog w' \<noteq> [] \<and> action (hd (keylog w')) = ''keypress''" by simp
  with run show ?thesis by (simp add: type_text_profile_def w0_def)
qed

lemmas run_eval =
  type_text_profile_def sample_driver_def default_args_def initial_world_def focus_def
  page_call_def type_loop.simps type_step_def do_type_char_def press_backspace_def send_key_def
  bind_e_def sleep_def uniform_def random_def choice_def Let_def

theorem focus_failure_not_signalled_witness:
  "\<exists>w'. type_text_profile
          (sample_driver\<lparr>focus_input_raises := True, focus_body_raises := True\<rparr>)
          ''ab'' ''human_like'' default_args initial_world = Inr w'
        \<and> keylog w' \<noteq> [] \<and> action (hd (keylog w')) = ''keypress''"
proof -
  let ?drv = "sample_driver\<lparr>focus_input_raises := True, focus_body_raises := True\<rparr>"
  have h: "focus_input_raises ?drv" "focus_body_raises ?drv"
    "\<forall>n. 0 \<le> latency ?drv n" "\<forall>n. raises ?drv n \<longrightarrow> \<not> raises ?drv (Suc n)"
    "0 \<le> fixed_delay_ms default_args" "0 \<le> delay_min default_args"
    "0 \<le> delay_max default_args" "\<forall>n. 0 \<le> rand ?drv n \<and> rand ?drv n \<le> 1"
    "''ab'' \<noteq> []" "0 < max_chars default_args"
    by (simp_all add: sample_driver_def default_args_def)
  show ?thesis
    by (rule focus_failure_not_signalled[OF h])
qed

theorem typing_after_focus_failure_counterexample:
  "\<exists>w'. type_text_profile
          (sample_driver\<lparr>focus_input_raises := True, focus_body_raises := True\<rparr>)
          ''ab'' ''superhuman'' default_args initial_world = Inr w'
        \<and> map key (keylog w') = [''a'', ''b'']
        \<and> map action (keylog w') = [''keypress'', ''keypress'']"
  by (simp add: run_eval)

text \<open>
  \<^bold>\<open>C3.\<close> The letter typed as the mistake is drawn from the whole lowercase alphabet, the
  correct character included: typing \<^verbatim>\<open>ab\<close> with the \<^verbatim>\<open>human_like\<close> profile, when the
  first draw injects an error and \<^verbatim>\<open>random.choice\<close> picks \<^verbatim>\<open>a\<close>, logs the keypress \<^verbatim>\<open>a\<close> as
  the wrong key, the backspace, and the keypress \<^verbatim>\<open>a\<close> again.
\<close>

theorem wrong_key_can_be_the_correct_key:
  "\<exists>w'. type_text_profile sample_driver ''ab'' ''human_like'' default_args initial_world = Inr w'
        \<and> map key (keylog w') = [''a'', ''Backspace'', ''a'', ''b'']
        \<and> map action (keylog w') = [''keypress'', ''backspace'', ''keypress'', ''keypress'']"
  by (simp add: run_eval)




end
